theory Spec2Isabelle
  imports Complex_Main
begin

section \<open>Numbers and failures\<close>

text \<open>\<open>TypeError\<close>: a property of \<open>undefined\<close> is read. \<open>NotFoundError\<close>:
  \<open>removeChild\<close> is given a node that is not a child. Both are thrown by the browser; the
  state a throwing call leaves behind is not modelled. \<open>NonFiniteNumber\<close>: an arithmetic
  operation of the layout pass gave \<open>Infinity\<close> or \<open>NaN\<close>. JavaScript does not throw there
  and goes on with that value; the model holds finite numbers only and follows such a run no
  further.\<close>

datatype failure = TypeError | NotFoundError | NonFiniteNumber

text \<open>
  A JavaScript number is an IEEE 754 double. The model keeps a finite double as the real
  number it denotes (the sign of zero is not kept). \<open>exponent x\<close> is the binary exponent of
  a positive \<open>x\<close>: \<open>2 powi exponent x \<le> x < 2 powi (exponent x + 1)\<close>.
\<close>

function exponent :: "real \<Rightarrow> int" where
  "exponent x =
     (if x \<le> 0 then 0
      else if 2 \<le> x then exponent (x / 2) + 1
      else if x < 1 then exponent (x * 2) - 1
      else 0)"
  by pat_completeness auto
termination
proof (relation "measure (\<lambda>x. if 1 \<le> x then nat \<lfloor>x\<rfloor> else nat \<lceil>1 / x\<rceil>)")
  show "wf (measure (\<lambda>x::real. if 1 \<le> x then nat \<lfloor>x\<rfloor> else nat \<lceil>1 / x\<rceil>))" by simp
next
  fix x :: real
  assume a: "\<not> x \<le> 0" "2 \<le> x"
  have "\<lfloor>x / 2\<rfloor> < \<lfloor>x\<rfloor>" using a by linarith
  moreover have "0 < \<lfloor>x\<rfloor>" using a by linarith
  ultimately show "(x / 2, x) \<in> measure (\<lambda>x. if 1 \<le> x then nat \<lfloor>x\<rfloor> else nat \<lceil>1 / x\<rceil>)"
    using a by auto
next
  fix x :: real
  assume a: "\<not> x \<le> 0" "\<not> 2 \<le> x" "x < 1"
  have inv: "1 < 1 / x" using a by simp
  show "(x * 2, x) \<in> measure (\<lambda>x. if 1 \<le> x then nat \<lfloor>x\<rfloor> else nat \<lceil>1 / x\<rceil>)"
  proof (cases "1 \<le> x * 2")
    case True
    then have "\<lfloor>x * 2\<rfloor> = 1" using a by linarith
    moreover have "2 \<le> \<lceil>1 / x\<rceil>" using inv by linarith
    ultimately show ?thesis using True a by auto
  next
    case False
    then have "2 < 1 / x" using a by (simp add: field_simps)
    moreover have "1 / (x * 2) = (1 / x) / 2" by simp
    ultimately have "\<lceil>1 / (x * 2)\<rceil> < \<lceil>1 / x\<rceil>" by linarith
    moreover have "0 < \<lceil>1 / x\<rceil>" using inv by linarith
    ultimately show ?thesis using False a by auto
  qed
qed

declare exponent.simps [simp del]

text \<open>Rounding to the nearest integer, a tie going to the even one.\<close>

definition roundHalfEven :: "real \<Rightarrow> int" where
  "roundHalfEven y =
     (let f = \<lfloor>y\<rfloor>; d = y - of_int f
      in if d < 1 / 2 then f else if 1 / 2 < d then f + 1 else if even f then f else f + 1)"

text \<open>
  \<open>round64 x\<close> is \<open>x\<close> rounded to 53 significant bits, or to a multiple of \<open>2 powi -1074\<close>
  below the normal range: the double nearest to \<open>x\<close>, a tie going to the even significand
  (the rounding of every IEEE operation and of a decimal literal). The exponent is not
  bounded above: a result of magnitude \<open>2 ^ 1024\<close> or more stands for \<open>Infinity\<close>.
  \<open>isDouble x\<close>: \<open>x\<close> is a finite double.
\<close>

definition round64 :: "real \<Rightarrow> real" where
  "round64 x =
     (if x = 0 then 0
      else let q = 2 powi (max (exponent \<bar>x\<bar>) (- 1022) - 52)
           in of_int (roundHalfEven (x / q)) * q)"

definition isDouble :: "real \<Rightarrow> bool" where
  "isDouble x \<longleftrightarrow> round64 x = x \<and> \<bar>x\<bar> < 2 ^ 1024"

text \<open>
  The arithmetic operators. On doubles they are IEEE's: the exact result, rounded. The
  fields of the state are reals; in a run of the program every one of them holds a double,
  and on a real that is no double, which no run meets, the operators are left exact.
  \<open>plus64\<close>, \<open>minus64\<close>, \<open>times64\<close> and \<open>divide64\<close> give the rounded result whatever its
  size; \<open>jsAdd\<close>, \<open>jsSubtract\<close>, \<open>jsMultiply\<close> and \<open>jsDivide\<close> are the operators of the
  program, which fail with \<open>NonFiniteNumber\<close> where that result is \<open>Infinity\<close> (magnitude
  \<open>2 ^ 1024\<close> or more) and where the divisor is zero (\<open>Infinity\<close> or \<open>NaN\<close>).
\<close>

definition binary64 :: "(real \<Rightarrow> real \<Rightarrow> real) \<Rightarrow> real \<Rightarrow> real \<Rightarrow> real" where
  "binary64 f x y = (if isDouble x \<and> isDouble y then round64 (f x y) else f x y)"

definition plus64 :: "real \<Rightarrow> real \<Rightarrow> real" where
  "plus64 x y = binary64 (+) x y"

definition minus64 :: "real \<Rightarrow> real \<Rightarrow> real" where
  "minus64 x y = binary64 (-) x y"

definition times64 :: "real \<Rightarrow> real \<Rightarrow> real" where
  "times64 x y = binary64 (*) x y"

definition divide64 :: "real \<Rightarrow> real \<Rightarrow> real" where
  "divide64 x y = binary64 (/) x y"

definition finite64 :: "real \<Rightarrow> real \<Rightarrow> real \<Rightarrow> failure + real" where
  "finite64 x y r =
     (if isDouble x \<and> isDouble y \<and> 2 ^ 1024 \<le> \<bar>r\<bar> then Inl NonFiniteNumber else Inr r)"

definition jsAdd :: "real \<Rightarrow> real \<Rightarrow> failure + real" where
  "jsAdd x y = finite64 x y (plus64 x y)"

definition jsSubtract :: "real \<Rightarrow> real \<Rightarrow> failure + real" where
  "jsSubtract x y = finite64 x y (minus64 x y)"

definition jsMultiply :: "real \<Rightarrow> real \<Rightarrow> failure + real" where
  "jsMultiply x y = finite64 x y (times64 x y)"

definition jsDivide :: "real \<Rightarrow> real \<Rightarrow> failure + real" where
  "jsDivide x y = (if y = 0 then Inl NonFiniteNumber else finite64 x y (divide64 x y))"

text \<open>Sequencing: the second computation runs on the value of the first unless that
  failed.\<close>

definition andThen :: "failure + 'a \<Rightarrow> ('a \<Rightarrow> failure + 'b) \<Rightarrow> failure + 'b" where
  "andThen r f = (case r of Inl e \<Rightarrow> Inl e | Inr x \<Rightarrow> f x)"

lemma andThen_cong [fundef_cong]:
  "r = r' \<Longrightarrow> (\<And>x. r' = Inr x \<Longrightarrow> f x = f' x) \<Longrightarrow> andThen r f = andThen r' f'"
  by (auto simp: andThen_def split: sum.splits)

lemma andThen_Inr [simp]: "andThen (Inr x) f = f x"
  by (simp add: andThen_def)

lemma andThen_Inl [simp]: "andThen (Inl e) f = Inl e"
  by (simp add: andThen_def)

lemma andThen_weak_cong [cong]: "r = r' \<Longrightarrow> andThen r f = andThen r' f"
  by simp

declare let_weak_cong [cong]

text \<open>
  \<open>parseInt(x, 10)\<close> on a number converts it to a string and reads the leading integer.
  \<open>Number::toString\<close> writes the shortest decimal \<open>s * 10 powi (n - k)\<close> (\<open>k\<close> digits
  \<open>s\<close>) that rounds to \<open>x\<close>, the one nearest to \<open>x\<close> if there are several: in plain
  notation when \<open>-6 < n \<le> 21\<close>, that is for zero and for magnitudes from the double nearest
  to \<open>1e-6\<close> up to \<open>1e21\<close>, where the integer read is \<open>x\<close> truncated toward zero; and in
  exponent notation otherwise, with one digit before the point, so that the integer read is
  the leading digit of \<open>s\<close> (\<open>parseInt(1e-7, 10)\<close> is 1). \<open>exponent10 x\<close> is the decimal
  exponent of a positive \<open>x\<close>; \<open>leadingDigit k x\<close> looks for that decimal with \<open>k\<close> digits,
  then with more.
\<close>

function exponent10 :: "real \<Rightarrow> int" where
  "exponent10 x =
     (if x \<le> 0 then 0
      else if 10 \<le> x then exponent10 (x / 10) + 1
      else if x < 1 then exponent10 (x * 10) - 1
      else 0)"
  by pat_completeness auto
termination
proof (relation "measure (\<lambda>x. if 1 \<le> x then nat \<lfloor>x\<rfloor> else nat \<lceil>1 / x\<rceil> + 10)")
  show "wf (measure (\<lambda>x::real. if 1 \<le> x then nat \<lfloor>x\<rfloor> else nat \<lceil>1 / x\<rceil> + 10))" by simp
next
  fix x :: real
  assume a: "\<not> x \<le> 0" "10 \<le> x"
  have "\<lfloor>x / 10\<rfloor> < \<lfloor>x\<rfloor>" using a by linarith
  moreover have "0 < \<lfloor>x\<rfloor>" using a by linarith
  ultimately show "(x / 10, x) \<in> measure (\<lambda>x. if 1 \<le> x then nat \<lfloor>x\<rfloor> else nat \<lceil>1 / x\<rceil> + 10)"
    using a by auto
next
  fix x :: real
  assume a: "\<not> x \<le> 0" "\<not> 10 \<le> x" "x < 1"
  have inv: "1 < 1 / x" using a by simp
  show "(x * 10, x) \<in> measure (\<lambda>x. if 1 \<le> x then nat \<lfloor>x\<rfloor> else nat \<lceil>1 / x\<rceil> + 10)"
  proof (cases "1 \<le> x * 10")
    case True
    then have "nat \<lfloor>x * 10\<rfloor> < 10" using a by linarith
    then show ?thesis using True a by auto
  next
    case False
    then have "10 < 1 / x" using a by (simp add: field_simps)
    moreover have "1 / (x * 10) = (1 / x) / 10" by simp
    ultimately have "\<lceil>1 / (x * 10)\<rceil> < \<lceil>1 / x\<rceil>" by linarith
    moreover have "0 < \<lceil>1 / x\<rceil>" using inv by linarith
    ultimately show ?thesis using False a by auto
  qed
qed

declare exponent10.simps [simp del]

function leadingDigit :: "nat \<Rightarrow> real \<Rightarrow> nat" where
  "leadingDigit k x =
     (if 17 < k then nat \<lfloor>x / 10 powi exponent10 x\<rfloor>
      else
        let p = exponent10 x - int k + 1;
            lo = \<lfloor>x / 10 powi p\<rfloor>;
            hi = lo + 1;
            okLo = (round64 (of_int lo * 10 powi p) = x);
            okHi = (round64 (of_int hi * 10 powi p) = x);
            below = x - of_int lo * 10 powi p;
            above = of_int hi * 10 powi p - x;
            s = (if okLo \<and> okHi
                 then (if below < above then lo else if above < below then hi
                       else if even lo then lo else hi)
                 else if okLo then lo else hi)
        in if okLo \<or> okHi then (if s = 10 ^ k then 1 else nat (s div 10 ^ (k - 1)))
           else leadingDigit (k + 1) x)"
  by pat_completeness auto
termination
  by (relation "measure (\<lambda>(k, x). 18 - k)") auto

declare leadingDigit.simps [simp del]

definition plainLow :: real where
  "plainLow = round64 (1 / 10 ^ 6)"

definition parseInt :: "real \<Rightarrow> int" where
  "parseInt x =
     (if x = 0 \<or> (plainLow \<le> \<bar>x\<bar> \<and> \<bar>x\<bar> < 10 ^ 21)
      then (if 0 \<le> x then \<lfloor>x\<rfloor> else \<lceil>x\<rceil>)
      else if 0 \<le> x then int (leadingDigit 1 x) else - int (leadingDigit 1 (- x)))"


section \<open>Data model\<close>

text \<open>The value of the CSS \<open>transition\<close> property: \<open>'none'\<close>, or
  \<open>'<seconds>s transform ease'\<close> with the duration kept as a number.\<close>

datatype transition = NoTransition | TransformEase real

text \<open>The object assigned to \<open>img.style\<close> by the layout pass.\<close>

record style =
  width :: int
  height :: int
  translateX :: real
  translateY :: real
  transition :: transition

text \<open>An \<open>Image\<close> object created by \<open>addImageAsSubElement\<close>.\<close>

record image_element =
  src :: string
  className :: string

text \<open>The figure element of a \<open>ProgressiveImage\<close>: its class, the style last written by
  \<open>_updateStyles\<close>, its child nodes (positions of \<open>Image\<close> objects in
  \<open>imageElements\<close>) and whether a click listener was attached.\<close>

record figure_element =
  figureClassName :: string
  figureStyle :: "style option"
  childNodes :: "nat list"
  clickListener :: bool

text \<open>A \<open>ProgressiveImage\<close>. \<open>style\<close> is undefined until the first layout pass;
  \<open>element\<close>, \<open>thumbnail\<close> and \<open>fullImage\<close> are undefined until created.\<close>

record progressive_image =
  existsOnPage :: bool
  aspectRatio :: real
  filename :: string
  index :: nat
  style :: "style option"
  element :: "figure_element option"
  thumbnail :: "nat option"
  fullImage :: "nat option"

text \<open>\<open>PigSettings\<close>. \<open>hasOnClickHandler\<close> stands for \<open>onClickHandler !== null\<close>;
  \<open>containerId\<close>, \<open>scroller\<close> and \<open>figureTagName\<close> play no part in what follows.\<close>

record pig_settings =
  classPrefix :: string
  spaceBetweenImages :: real
  transitionSpeed :: real
  primaryImageBufferHeight :: real
  secondaryImageBufferHeight :: real
  thumbnailSize :: real
  hasOnClickHandler :: bool
  urlForSize :: "string \<Rightarrow> real \<Rightarrow> string"
  getMinAspectRatio :: "real \<Rightarrow> real"
  getImageSize :: "real \<Rightarrow> real"

definition defaultGetMinAspectRatio :: "real \<Rightarrow> real" where
  "defaultGetMinAspectRatio lastWindowWidth =
     (if lastWindowWidth \<le> 640 then 2
      else if lastWindowWidth \<le> 1280 then 4
      else if lastWindowWidth \<le> 1920 then 5
      else 6)"

definition defaultGetImageSize :: "real \<Rightarrow> real" where
  "defaultGetImageSize lastWindowWidth =
     (if lastWindowWidth \<le> 640 then 100
      else if lastWindowWidth \<le> 1920 then 250
      else 500)"

text \<open>\<open>size.toString(10)\<close>, for the sizes the default policy returns (natural numbers).\<close>

function decimal :: "nat \<Rightarrow> string" where
  "decimal n =
     (if n < 10 then [''0123456789'' ! n]
      else decimal (n div 10) @ [''0123456789'' ! (n mod 10)])"
  by pat_completeness auto
termination
  by (relation "measure id") auto

definition defaultUrlForSize :: "string \<Rightarrow> real \<Rightarrow> string" where
  "defaultUrlForSize name sz = ''/img/'' @ decimal (nat \<lfloor>sz\<rfloor>) @ ''/'' @ name"

definition defaultSettings :: pig_settings where
  "defaultSettings = \<lparr>
     classPrefix = ''pig'',
     spaceBetweenImages = 8,
     transitionSpeed = 500,
     primaryImageBufferHeight = 1000,
     secondaryImageBufferHeight = 300,
     thumbnailSize = 20,
     hasOnClickHandler = False,
     urlForSize = defaultUrlForSize,
     getMinAspectRatio = defaultGetMinAspectRatio,
     getImageSize = defaultGetImageSize \<rparr>"

datatype direction = Up | Down

text \<open>The part of the document the images write to: the figures that are children of the
  container (each named by the \<open>index\<close> of its image, in document order), every
  \<open>Image\<close> object created so far, and the 100ms timeouts set by \<open>load\<close> (each named by
  the \<open>index\<close> of its image).\<close>

record page =
  containerChildren :: "nat list"
  imageElements :: "image_element list"
  loadTimeouts :: "nat list"

text \<open>The callbacks queued with \<open>requestAnimationFrame\<close>: the scroll handler's layout
  pass, and \<open>_runCallbacks\<close> of the resize manager.\<close>

datatype frame_callback = ScrollFrame | ResizeFrame

text \<open>\<open>OptimizedResize\<close>: callbacks are closures, named by the number they were created
  under.\<close>

record optimized_resize =
  callbacks :: "nat list"
  running :: bool

text \<open>
  A \<open>Pig\<close> instance together with the browser state it reads and writes.
  The instance: \<open>inRAF\<close> to \<open>optimizedResize\<close>; \<open>minAspectRatio\<close> is \<open>null\<close> and
  \<open>previousYOffset\<close>, \<open>totalHeight\<close>, \<open>onScroll\<close> are undefined after construction.
  The browser (the container element is taken to exist): \<open>clientWidth\<close> of the
  container (an integer in the DOM); \<open>offsetTops\<close>,
  the \<open>offsetTop\<close> of the container and of each of its offset parents (what
  \<open>_getOffsetTop\<close> walks); \<open>styleHeight\<close>, the pixel value last assigned to the
  container's \<open>style.height\<close>; \<open>scrollerHeight\<close>, \<open>window.innerHeight\<close> or the scroller
  element's \<open>offsetHeight\<close>; the page; the delays of the timeouts set to clear
  \<open>isTransitioning\<close>; the animation-frame queue; the listeners registered for
  \<open>scroll\<close> on the scroller and for \<open>resize\<close> on the window; and the number of function
  objects created so far (a closure or a bound function is named by its number).
\<close>

record pig =
  inRAF :: bool
  isTransitioning :: bool
  minAspectRatioRequiresTransition :: bool
  minAspectRatio :: "real option"
  latestYOffset :: real
  previousYOffset :: "real option"
  lastWindowWidth :: real
  scrollDirection :: direction
  settings :: pig_settings
  images :: "progressive_image list"
  totalHeight :: "real option"
  onScroll :: "nat option"
  optimizedResize :: optimized_resize
  clientWidth :: int
  offsetTops :: "real list"
  styleHeight :: "real option"
  scrollerHeight :: real
  page :: page
  transitionTimeouts :: "real list"
  animationFrames :: "frame_callback list"
  scrollListeners :: "nat list"
  resizeListeners :: "nat list"
  functionCount :: nat

section \<open>ProgressiveImage\<close>

text \<open>The body of \<open>_updateStyles\<close> once the figure exists.\<close>

definition writeStyles :: "progressive_image \<Rightarrow> failure + progressive_image" where
  "writeStyles img =
     (case element img of
        None \<Rightarrow> Inl TypeError
      | Some el \<Rightarrow>
          (case style img of
             None \<Rightarrow> Inl TypeError
           | Some st \<Rightarrow> Inr (img\<lparr>element := Some (el\<lparr>figureStyle := Some st\<rparr>)\<rparr>)))"

definition getElement :: "pig_settings \<Rightarrow> progressive_image \<Rightarrow> failure + progressive_image" where
  "getElement S img =
     (case element img of
        Some el \<Rightarrow> Inr img
      | None \<Rightarrow>
          writeStyles (img\<lparr>element := Some \<lparr>figureClassName = classPrefix S @ ''-figure'',
                                             figureStyle = None,
                                             childNodes = [],
                                             clickListener = hasOnClickHandler S\<rparr>\<rparr>))"

definition updateStyles :: "pig_settings \<Rightarrow> progressive_image \<Rightarrow> failure + progressive_image" where
  "updateStyles S img =
     (case getElement S img of Inl e \<Rightarrow> Inl e | Inr img1 \<Rightarrow> writeStyles img1)"

text \<open>\<open>appendChild\<close> moves a node that is already a child to the end.\<close>

definition appendChild :: "nat \<Rightarrow> nat list \<Rightarrow> nat list" where
  "appendChild c cs = removeAll c cs @ [c]"

definition removeChild :: "nat \<Rightarrow> nat list \<Rightarrow> failure + nat list" where
  "removeChild c cs = (if c \<in> set cs then Inr (removeAll c cs) else Inl NotFoundError)"

definition load ::
  "pig_settings \<Rightarrow> progressive_image \<Rightarrow> page \<Rightarrow> failure + progressive_image \<times> page" where
  "load S img pg =
     (case updateStyles S (img\<lparr>existsOnPage := True\<rparr>) of
        Inl e \<Rightarrow> Inl e
      | Inr img1 \<Rightarrow>
          Inr (img1, pg\<lparr>containerChildren := appendChild (index img1) (containerChildren pg),
                        loadTimeouts := loadTimeouts pg @ [index img1]\<rparr>))"

datatype sub_element = Thumbnail | FullImage

definition getSub :: "sub_element \<Rightarrow> progressive_image \<Rightarrow> nat option" where
  "getSub name img = (case name of Thumbnail \<Rightarrow> thumbnail img | FullImage \<Rightarrow> fullImage img)"

definition setSub :: "sub_element \<Rightarrow> nat option \<Rightarrow> progressive_image \<Rightarrow> progressive_image" where
  "setSub name v img =
     (case name of Thumbnail \<Rightarrow> img\<lparr>thumbnail := v\<rparr> | FullImage \<Rightarrow> img\<lparr>fullImage := v\<rparr>)"

definition removeSubElement ::
  "pig_settings \<Rightarrow> sub_element \<Rightarrow> progressive_image \<Rightarrow> page
     \<Rightarrow> failure + progressive_image \<times> page" where
  "removeSubElement S name img pg =
     (case getSub name img of
        None \<Rightarrow> Inr (img, pg)
      | Some e \<Rightarrow>
          let els = (imageElements pg)[e := (imageElements pg ! e)\<lparr>src := []\<rparr>] in
          (case getElement S img of
             Inl err \<Rightarrow> Inl err
           | Inr img1 \<Rightarrow>
               (case removeChild e (childNodes (the (element img1))) of
                  Inl err \<Rightarrow> Inl err
                | Inr cs \<Rightarrow>
                    Inr (setSub name None
                           (img1\<lparr>element := Some ((the (element img1))\<lparr>childNodes := cs\<rparr>)\<rparr>),
                         pg\<lparr>imageElements := els\<rparr>))))"

definition removeAllSubElements ::
  "pig_settings \<Rightarrow> progressive_image \<Rightarrow> page \<Rightarrow> failure + progressive_image \<times> page" where
  "removeAllSubElements S img pg =
     (case removeSubElement S Thumbnail img pg of
        Inl e \<Rightarrow> Inl e
      | Inr (img1, pg1) \<Rightarrow> removeSubElement S FullImage img1 pg1)"

definition hide ::
  "pig_settings \<Rightarrow> progressive_image \<Rightarrow> page \<Rightarrow> failure + progressive_image \<times> page" where
  "hide S img pg =
     (case getElement S img of
        Inl e \<Rightarrow> Inl e
      | Inr img1 \<Rightarrow>
          (case removeAllSubElements S img1 pg of
             Inl e \<Rightarrow> Inl e
           | Inr (img2, pg2) \<Rightarrow>
               if existsOnPage img2
               then (case removeChild (index img2) (containerChildren pg2) of
                       Inl e \<Rightarrow> Inl e
                     | Inr cs \<Rightarrow>
                         Inr (img2\<lparr>existsOnPage := False\<rparr>, pg2\<lparr>containerChildren := cs\<rparr>))
               else Inr (img2\<lparr>existsOnPage := False\<rparr>, pg2)))"

definition addImageAsSubElement ::
  "pig_settings \<Rightarrow> sub_element \<Rightarrow> string \<Rightarrow> real \<Rightarrow> string \<Rightarrow> progressive_image \<Rightarrow> page
     \<Rightarrow> failure + progressive_image \<times> page" where
  "addImageAsSubElement S name file sz classname img pg =
     (case getSub name img of
        Some e \<Rightarrow> Inr (img, pg)
      | None \<Rightarrow>
          let e = length (imageElements pg);
              subElement = \<lparr>src = urlForSize S file sz,
                            className = (if length classname > 0 then classname else [])\<rparr>
          in (case getElement S (setSub name (Some e) img) of
                Inl err \<Rightarrow> Inl err
              | Inr img1 \<Rightarrow>
                  Inr (img1\<lparr>element := Some ((the (element img1))
                               \<lparr>childNodes := appendChild e (childNodes (the (element img1)))\<rparr>)\<rparr>,
                       pg\<lparr>imageElements := imageElements pg @ [subElement]\<rparr>)))"

definition addAllSubElements ::
  "pig_settings \<Rightarrow> real \<Rightarrow> progressive_image \<Rightarrow> page \<Rightarrow> failure + progressive_image \<times> page" where
  "addAllSubElements S windowWidth img pg =
     (case addImageAsSubElement S Thumbnail (filename img) (thumbnailSize S)
             (classPrefix S @ ''-thumbnail'') img pg of
        Inl e \<Rightarrow> Inl e
      | Inr (img1, pg1) \<Rightarrow>
          addImageAsSubElement S FullImage (filename img1) (getImageSize S windowWidth) [] img1 pg1)"

text \<open>The callback \<open>load\<close> passes to \<open>setTimeout\<close>, run 100ms later.\<close>

definition loadTimeout ::
  "pig_settings \<Rightarrow> real \<Rightarrow> progressive_image \<Rightarrow> page \<Rightarrow> failure + progressive_image \<times> page" where
  "loadTimeout S windowWidth img pg =
     (if \<not> existsOnPage img then Inr (img, pg) else addAllSubElements S windowWidth img pg)"


section \<open>The layout pass\<close>

definition getTransitionTimeout :: "pig \<Rightarrow> real" where
  "getTransitionTimeout p = times64 (transitionSpeed (settings p)) 1.5"

definition getTransitionString :: "pig \<Rightarrow> transition" where
  "getTransitionString p =
     (if isTransitioning p then TransformEase (divide64 (transitionSpeed (settings p)) 1000)
      else NoTransition)"

definition recomputeMinAspectRatio :: "pig \<Rightarrow> pig" where
  "recomputeMinAspectRatio p =
     (let oldMinAspectRatio = minAspectRatio p;
          p1 = p\<lparr>minAspectRatio := Some (getMinAspectRatio (settings p) (lastWindowWidth p))\<rparr>
      in if oldMinAspectRatio \<noteq> None \<and> oldMinAspectRatio \<noteq> minAspectRatio p1
         then p1\<lparr>minAspectRatioRequiresTransition := True\<rparr>
         else p1\<lparr>minAspectRatioRequiresTransition := False\<rparr>)"

text \<open>The first steps of \<open>_computeLayout\<close>: the minimum aspect ratio is recomputed and,
  when it has changed outside a transition, a transition is started and the timeout that
  ends it is set.\<close>

definition beginLayout :: "pig \<Rightarrow> pig" where
  "beginLayout p =
     (let p1 = recomputeMinAspectRatio p
      in if \<not> isTransitioning p1 \<and> minAspectRatioRequiresTransition p1
         then p1\<lparr>isTransitioning := True,
                 transitionTimeouts := transitionTimeouts p1 @ [getTransitionTimeout p1]\<rparr>
         else p1)"

text \<open>The callback of that timeout.\<close>

definition endTransition :: "pig \<Rightarrow> pig" where
  "endTransition p = p\<lparr>isTransitioning := False\<rparr>"

text \<open>The local variables of \<open>_computeLayout\<close> that its loop updates. \<open>placed\<close> holds the
  images whose style has been assigned, in sequence order.\<close>

record layout_state =
  row :: "progressive_image list"
  cursorX :: real
  cursorY :: real
  rowAspectRatio :: real
  placed :: "progressive_image list"

text \<open>The inner \<open>row.forEach\<close>: assigns each image of the row its style and advances the
  horizontal cursor: \<open>translateX += imageWidth + spaceBetweenImages\<close> adds the sum of the
  untruncated image width and the spacing.\<close>

fun placeRow ::
  "real \<Rightarrow> real \<Rightarrow> real \<Rightarrow> transition \<Rightarrow> real \<Rightarrow> progressive_image list
     \<Rightarrow> failure + progressive_image list \<times> real" where
  "placeRow rowHeight space ty tr tx [] = Inr ([], tx)"
| "placeRow rowHeight space ty tr tx (img # imgs) =
     andThen (jsMultiply rowHeight (aspectRatio img)) (\<lambda>imageWidth.
     andThen (jsAdd imageWidth space) (\<lambda>step.
     andThen (jsAdd tx step) (\<lambda>tx1.
     andThen (placeRow rowHeight space ty tr tx1 imgs) (\<lambda>(rest, tx').
       Inr (img\<lparr>style := Some \<lparr>width = parseInt imageWidth, height = parseInt rowHeight,
                                 translateX = tx, translateY = ty, transition = tr\<rparr>\<rparr> # rest,
            tx')))))"

text \<open>The body of the \<open>if\<close> that closes a row. \<open>row.length - 1\<close> is exact;
  \<open>translateY += parseInt(rowHeight, 10) + spaceBetweenImages\<close> adds the sum of the
  truncated row height and the spacing.\<close>

definition closeRow ::
  "int \<Rightarrow> real \<Rightarrow> real \<Rightarrow> transition \<Rightarrow> layout_state \<Rightarrow> failure + layout_state" where
  "closeRow wrapperWidth space minAR tr st =
     (let rowAR = max (rowAspectRatio st) minAR in
      andThen (jsMultiply space (of_nat (length (row st)) - 1)) (\<lambda>gaps.
      andThen (jsSubtract (of_int wrapperWidth) gaps) (\<lambda>totalDesiredWidthOfImages.
      andThen (jsDivide totalDesiredWidthOfImages rowAR) (\<lambda>rowHeight.
      andThen (placeRow rowHeight space (cursorY st) tr (cursorX st) (row st)) (\<lambda>(styled, tx).
      andThen (jsAdd (of_int (parseInt rowHeight)) space) (\<lambda>step.
      andThen (jsAdd (cursorY st) step) (\<lambda>ty.
        Inr (st\<lparr>placed := placed st @ styled,
                 row := [],
                 rowAspectRatio := 0,
                 cursorY := ty,
                 cursorX := 0\<rparr>))))))))"

text \<open>The \<open>forEach\<close> over \<open>this.images\<close>: \<open>n\<close> is \<open>this.images.length\<close>, \<open>i\<close> the index
  of the image at the head of the list.\<close>

fun layoutLoop ::
  "int \<Rightarrow> real \<Rightarrow> real \<Rightarrow> transition \<Rightarrow> nat \<Rightarrow> nat \<Rightarrow> layout_state
     \<Rightarrow> progressive_image list \<Rightarrow> failure + layout_state" where
  "layoutLoop wrapperWidth space minAR tr n i st [] = Inr st"
| "layoutLoop wrapperWidth space minAR tr n i st (img # rest) =
     andThen (jsAdd (rowAspectRatio st) (aspectRatio img)) (\<lambda>rowAR.
       let st1 = st\<lparr>rowAspectRatio := rowAR, row := row st @ [img]\<rparr>
       in if rowAspectRatio st1 \<ge> minAR \<or> i + 1 = n
          then andThen (closeRow wrapperWidth space minAR tr st1) (\<lambda>st2.
                 layoutLoop wrapperWidth space minAR tr n (i + 1) st2 rest)
          else layoutLoop wrapperWidth space minAR tr n (i + 1) st1 rest)"

definition initialLayoutState :: layout_state where
  "initialLayoutState = \<lparr>row = [], cursorX = 0, cursorY = 0, rowAspectRatio = 0, placed = []\<rparr>"

definition computeLayout :: "pig \<Rightarrow> failure + pig" where
  "computeLayout p =
     (let wrapperWidth = parseInt (of_int (clientWidth p));
          p1 = beginLayout p;
          tr = getTransitionString p1;
          space = spaceBetweenImages (settings p1)
      in andThen (layoutLoop wrapperWidth space (the (minAspectRatio p1)) tr
                    (length (images p1)) 0 initialLayoutState (images p1)) (\<lambda>st.
         andThen (jsSubtract (cursorY st) space) (\<lambda>h.
           Inr (p1\<lparr>images := placed st, totalHeight := Some h\<rparr>))))"

section \<open>The visibility pass\<close>

definition getOffsetTop :: "pig \<Rightarrow> real" where
  "getOffsetTop p = sum_list (offsetTops p)"

definition bufferTop :: "pig \<Rightarrow> real" where
  "bufferTop p =
     (if scrollDirection p = Up then primaryImageBufferHeight (settings p)
      else secondaryImageBufferHeight (settings p))"

definition bufferBottom :: "pig \<Rightarrow> real" where
  "bufferBottom p =
     (if scrollDirection p = Down then secondaryImageBufferHeight (settings p)
      else primaryImageBufferHeight (settings p))"

definition minTranslateYPlusHeight :: "pig \<Rightarrow> real" where
  "minTranslateYPlusHeight p = latestYOffset p - getOffsetTop p - bufferTop p"

definition maxTranslateY :: "pig \<Rightarrow> real" where
  "maxTranslateY p = latestYOffset p - getOffsetTop p + scrollerHeight p + bufferBottom p"

text \<open>The method \<open>_doLayout\<close> calls on an image.\<close>

datatype image_call = CallHide | CallLoad

definition visibilityCall :: "pig \<Rightarrow> style \<Rightarrow> image_call" where
  "visibilityCall p st =
     (if translateY st + of_int (height st) < minTranslateYPlusHeight p
         \<or> translateY st > maxTranslateY p
      then CallHide else CallLoad)"

definition applyCall ::
  "pig_settings \<Rightarrow> image_call \<Rightarrow> progressive_image \<Rightarrow> page
     \<Rightarrow> failure + progressive_image \<times> page" where
  "applyCall S c img pg = (case c of CallHide \<Rightarrow> hide S img pg | CallLoad \<Rightarrow> load S img pg)"

fun doLayoutImages ::
  "pig \<Rightarrow> progressive_image list \<Rightarrow> page \<Rightarrow> failure + progressive_image list \<times> page" where
  "doLayoutImages p [] pg = Inr ([], pg)"
| "doLayoutImages p (img # imgs) pg =
     (case style img of
        None \<Rightarrow> Inl TypeError
      | Some st \<Rightarrow>
          (case applyCall (settings p) (visibilityCall p st) img pg of
             Inl e \<Rightarrow> Inl e
           | Inr (img1, pg1) \<Rightarrow>
               (case doLayoutImages p imgs pg1 of
                  Inl e \<Rightarrow> Inl e
                | Inr (imgs1, pg2) \<Rightarrow> Inr (img1 # imgs1, pg2))))"

definition doLayout :: "pig \<Rightarrow> failure + pig" where
  "doLayout p =
     (let p1 = (case totalHeight p of None \<Rightarrow> p | Some h \<Rightarrow> p\<lparr>styleHeight := Some h\<rparr>)
      in case doLayoutImages p1 (images p1) (page p1) of
           Inl e \<Rightarrow> Inl e
         | Inr (imgs, pg) \<Rightarrow> Inr (p1\<lparr>images := imgs, page := pg\<rparr>))"

section \<open>Scroll and resize handling\<close>

text \<open>The scroll handler; \<open>newYOffset\<close> is the offset it reads from the scroller.
  \<open>that.latestYOffset || newYOffset\<close> takes the new offset when the last one is zero.\<close>

definition scrollHandler :: "real \<Rightarrow> pig \<Rightarrow> pig" where
  "scrollHandler newYOffset p =
     (let previous = (if latestYOffset p \<noteq> 0 then latestYOffset p else newYOffset);
          p1 = p\<lparr>previousYOffset := Some previous, latestYOffset := newYOffset\<rparr>;
          p2 = p1\<lparr>scrollDirection := (if latestYOffset p1 > previous then Down else Up)\<rparr>
      in if \<not> inRAF p2
         then p2\<lparr>inRAF := True, animationFrames := animationFrames p2 @ [ScrollFrame]\<rparr>
         else p2)"

text \<open>The callback the scroll handler queues for the next frame.\<close>

definition scrollFrame :: "pig \<Rightarrow> failure + pig" where
  "scrollFrame p = (case doLayout p of Inl e \<Rightarrow> Inl e | Inr p1 \<Rightarrow> Inr (p1\<lparr>inRAF := False\<rparr>))"

text \<open>The callback \<open>enable\<close> adds to the resize manager; \<open>newWidth\<close> is
  \<open>window.innerWidth\<close> or the scroller element's \<open>offsetWidth\<close>.\<close>

definition resizeCallback :: "real \<Rightarrow> pig \<Rightarrow> failure + pig" where
  "resizeCallback newWidth p =
     (case computeLayout (p\<lparr>lastWindowWidth := newWidth\<rparr>) of
        Inl e \<Rightarrow> Inl e
      | Inr p1 \<Rightarrow> doLayout p1)"

fun runCallbacks :: "real \<Rightarrow> nat list \<Rightarrow> pig \<Rightarrow> failure + pig" where
  "runCallbacks newWidth [] p = Inr (p\<lparr>optimizedResize := (optimizedResize p)\<lparr>running := False\<rparr>\<rparr>)"
| "runCallbacks newWidth (c # cs) p =
     (case resizeCallback newWidth p of
        Inl e \<Rightarrow> Inl e
      | Inr p1 \<Rightarrow> runCallbacks newWidth cs p1)"

text \<open>\<open>OptimizedResize._resize\<close>, the listener for \<open>resize\<close>, in a browser that has
  \<open>requestAnimationFrame\<close>.\<close>

definition resizeHandler :: "pig \<Rightarrow> pig" where
  "resizeHandler p =
     (if \<not> running (optimizedResize p)
      then p\<lparr>optimizedResize := (optimizedResize p)\<lparr>running := True\<rparr>,
             animationFrames := animationFrames p @ [ResizeFrame]\<rparr>
      else p)"

text \<open>One animation frame: the queued callbacks run in order; the run stops at the first
  that throws.\<close>

fun runFrameCallbacks :: "real \<Rightarrow> frame_callback list \<Rightarrow> pig \<Rightarrow> failure + pig" where
  "runFrameCallbacks newWidth [] p = Inr p"
| "runFrameCallbacks newWidth (c # cs) p =
     (case (case c of ScrollFrame \<Rightarrow> scrollFrame p
                    | ResizeFrame \<Rightarrow> runCallbacks newWidth (callbacks (optimizedResize p)) p) of
        Inl e \<Rightarrow> Inl e
      | Inr p1 \<Rightarrow> runFrameCallbacks newWidth cs p1)"

definition runFrame :: "real \<Rightarrow> pig \<Rightarrow> failure + pig" where
  "runFrame newWidth p = runFrameCallbacks newWidth (animationFrames p) (p\<lparr>animationFrames := []\<rparr>)"

section \<open>Enabling and disabling\<close>

text \<open>\<open>addEventListener\<close> ignores a function that is already registered;
  \<open>removeEventListener\<close> removes the function it is given, if registered.\<close>

definition addEventListener :: "nat \<Rightarrow> nat list \<Rightarrow> nat list" where
  "addEventListener f fs = (if f \<in> set fs then fs else fs @ [f])"

definition removeEventListener :: "nat \<Rightarrow> nat list \<Rightarrow> nat list" where
  "removeEventListener f fs = removeAll f fs"

text \<open>\<open>OptimizedResize.add\<close>: \<open>this._resize.bind(this)\<close> is a new function object.\<close>

definition optimizedResizeAdd :: "nat \<Rightarrow> pig \<Rightarrow> pig" where
  "optimizedResizeAdd callback p =
     (let p1 = (if callbacks (optimizedResize p) = []
                then p\<lparr>resizeListeners := addEventListener (functionCount p) (resizeListeners p),
                       functionCount := functionCount p + 1\<rparr>
                else p)
      in p1\<lparr>optimizedResize :=
              (optimizedResize p1)\<lparr>callbacks := callbacks (optimizedResize p1) @ [callback]\<rparr>\<rparr>)"

text \<open>\<open>OptimizedResize.disable\<close>: the function it removes is again a new one.\<close>

definition optimizedResizeDisable :: "pig \<Rightarrow> pig" where
  "optimizedResizeDisable p =
     p\<lparr>resizeListeners := removeEventListener (functionCount p) (resizeListeners p),
       functionCount := functionCount p + 1\<rparr>"

definition enable :: "real \<Rightarrow> pig \<Rightarrow> failure + pig" where
  "enable newYOffset p =
     (let handler = functionCount p;
          p1 = p\<lparr>onScroll := Some handler,
                 functionCount := handler + 1,
                 scrollListeners := addEventListener handler (scrollListeners p)\<rparr>;
          p2 = scrollHandler newYOffset p1
      in case computeLayout p2 of
           Inl e \<Rightarrow> Inl e
         | Inr p3 \<Rightarrow>
             (case doLayout p3 of
                Inl e \<Rightarrow> Inl e
              | Inr p4 \<Rightarrow>
                  Inr (optimizedResizeAdd (functionCount p4)
                         (p4\<lparr>functionCount := functionCount p4 + 1\<rparr>))))"

definition disable :: "pig \<Rightarrow> pig" where
  "disable p =
     optimizedResizeDisable
       (case onScroll p of
          None \<Rightarrow> p
        | Some handler \<Rightarrow> p\<lparr>scrollListeners := removeEventListener handler (scrollListeners p)\<rparr>)"

text \<open>The instance the constructor returns for \<open>imageData\<close> given as (filename, aspect
  ratio) pairs, in a window of the given width with a container of the given client width,
  and the document it starts in.\<close>

definition newImage :: "nat \<Rightarrow> string \<times> real \<Rightarrow> progressive_image" where
  "newImage i d =
     \<lparr>existsOnPage = False, aspectRatio = round64 (snd d), filename = fst d, index = i,
      style = None,
      element = None, thumbnail = None, fullImage = None\<rparr>"

definition parseImageData :: "(string \<times> real) list \<Rightarrow> progressive_image list" where
  "parseImageData imageData = map (\<lambda>(i, d). newImage i d) (zip [0..<length imageData] imageData)"

definition emptyPage :: page where
  "emptyPage = \<lparr>containerChildren = [], imageElements = [], loadTimeouts = []\<rparr>"

definition newPig :: "(string \<times> real) list \<Rightarrow> pig_settings \<Rightarrow> real \<Rightarrow> int \<Rightarrow> real \<Rightarrow> pig" where
  "newPig imageData options innerWidth containerWidth innerHeight =
     \<lparr>inRAF = False,
      isTransitioning = False,
      minAspectRatioRequiresTransition = False,
      minAspectRatio = None,
      latestYOffset = 0,
      previousYOffset = None,
      lastWindowWidth = innerWidth,
      scrollDirection = Down,
      settings = options,
      images = parseImageData imageData,
      totalHeight = None,
      onScroll = None,
      optimizedResize = \<lparr>callbacks = [], running = False\<rparr>,
      clientWidth = containerWidth,
      offsetTops = [0],
      styleHeight = None,
      scrollerHeight = innerHeight,
      page = emptyPage,
      transitionTimeouts = [],
      animationFrames = [],
      scrollListeners = [],
      resizeListeners = [],
      functionCount = 0\<rparr>"


section \<open>Rows of the layout, as the specification words them\<close>


text \<open>The geometry of one closed row: the running sum of its aspect ratios, the row height
  (the width left for images over the clamped sum), the untruncated width of an item, the
  horizontal cursor after the items \<open>r\<close>, and for the \<open>j\<close>-th item the truncated width and
  height, the horizontal cursor before it and the vertical cursor \<open>ty\<close>.\<close>

definition rowSum :: "progressive_image list \<Rightarrow> real" where
  "rowSum r = foldl plus64 0 (map aspectRatio r)"









text \<open>The container width, the rows and the total height the specification gives for an
  instance.\<close>

definition layoutMinAspectRatio :: "pig \<Rightarrow> real" where
  "layoutMinAspectRatio p = getMinAspectRatio (settings p) (lastWindowWidth p)"





section \<open>Instances and readings used in the statements\<close>


text \<open>The same with five images: the last two form a trailing row below the minimum.\<close>

definition trailingPig :: pig where
  "trailingPig =
     newPig [(''a.jpg'', 1.777), (''b.jpg'', 1.5), (''c.jpg'', 1.777), (''d.jpg'', 1.777),
             (''e.jpg'', 1)]
       defaultSettings 1900 1000 800"

text \<open>One image whose aspect ratio alone reaches the minimum.\<close>

definition completePig :: pig where
  "completePig = newPig [(''a.jpg'', 5)] defaultSettings 1900 1000 800"




text \<open>The width a row takes: the stored widths of its items plus the interior spacing; and
  the width the layout gives it before truncation: the container width when the row's
  aspect ratios reach the minimum \<open>m\<close>, and otherwise the share \<open>rowSum r / m\<close> of the
  width left for images, plus the interior spacing.\<close>

definition styleWidth :: "progressive_image \<Rightarrow> real" where
  "styleWidth img = (case style img of None \<Rightarrow> 0 | Some st \<Rightarrow> of_int (width st))"

definition rowWidth :: "real \<Rightarrow> progressive_image list \<Rightarrow> real" where
  "rowWidth s r = sum_list (map styleWidth r) + s * (of_nat (length r) - 1)"

definition filledWidth :: "int \<Rightarrow> real \<Rightarrow> real \<Rightarrow> progressive_image list \<Rightarrow> real" where
  "filledWidth W s m r =
     (if m \<le> rowSum r then of_int W
      else (of_int W - s * (of_nat (length r) - 1)) * (rowSum r / m)
             + s * (of_nat (length r) - 1))"

text \<open>Two images of aspect ratio 5 (two rows, at translateY 0 and 208, each 200 pixels
  high) after a layout pass and two scroll notifications, at offsets 300 and 600: the
  direction is down, the window of the visibility pass runs from 300 to 1700.\<close>

definition scrolledPig :: pig where
  "scrolledPig =
     (case computeLayout (newPig [(''a.jpg'', 5), (''b.jpg'', 5)] defaultSettings 1900 1000 800) of
        Inl e \<Rightarrow> newPig [] defaultSettings 1900 1000 800
      | Inr p \<Rightarrow> scrollHandler 600 (scrollHandler 300 p))"




text \<open>Scroll notifications delivered one after the other, with the offsets they read.\<close>

fun scrollBurst :: "real list \<Rightarrow> pig \<Rightarrow> pig" where
  "scrollBurst [] p = p"
| "scrollBurst (y # ys) p = scrollBurst ys (scrollHandler y p)"

text \<open>
  The invariant of a \<open>ProgressiveImage\<close> and the page: the image has a style; it is marked
  as on the page exactly when its figure is a child of the container; the children of its
  figure are its thumbnail and full image, which are different objects, both created.
\<close>

definition subElements :: "progressive_image \<Rightarrow> nat set" where
  "subElements img = set_option (thumbnail img) \<union> set_option (fullImage img)"

definition figureChildren :: "progressive_image \<Rightarrow> nat list" where
  "figureChildren img = (case element img of None \<Rightarrow> [] | Some el \<Rightarrow> childNodes el)"

definition wellFormed :: "progressive_image \<Rightarrow> page \<Rightarrow> bool" where
  "wellFormed img pg \<longleftrightarrow>
     style img \<noteq> None
     \<and> (existsOnPage img \<longleftrightarrow> index img \<in> set (containerChildren pg))
     \<and> set (figureChildren img) = subElements img
     \<and> (thumbnail img = None \<or> thumbnail img \<noteq> fullImage img)
     \<and> (\<forall>e\<in>subElements img. e < length (imageElements pg))"


section \<open>Properties of the double arithmetic\<close>

lemma round64_zero [simp]: "round64 0 = 0"
  by (simp add: round64_def)

lemma exponent_bracket:
  "0 < x \<Longrightarrow> 2 powi (exponent x) \<le> x \<and> x < 2 powi (exponent x + 1)"
proof (induction x rule: exponent.induct)
  case (1 x)
  show ?case
  proof (cases "2 \<le> x")
    case True
    then have e: "exponent x = exponent (x / 2) + 1" using 1(3) by (subst exponent.simps) simp
    have ih: "2 powi (exponent (x / 2)) \<le> x / 2 \<and> x / 2 < 2 powi (exponent (x / 2) + 1)"
      using 1(1) True 1(3) by simp
    have a: "(2::real) powi (exponent (x / 2) + 1) = 2 powi (exponent (x / 2)) * 2"
      by (rule power_int_add_1) simp
    have b: "(2::real) powi (exponent (x / 2) + 1 + 1) = 2 powi (exponent (x / 2) + 1) * 2"
      by (rule power_int_add_1) simp
    show ?thesis unfolding e using ih a b by linarith
  next
    case False
    show ?thesis
    proof (cases "x < 1")
      case True
      then have e: "exponent x = exponent (x * 2) - 1" using 1(3) False by (subst exponent.simps) simp
      have ih: "2 powi (exponent (x * 2)) \<le> x * 2 \<and> x * 2 < 2 powi (exponent (x * 2) + 1)"
        using 1(2) True False 1(3) by simp
      have a: "(2::real) powi (exponent (x * 2) - 1 + 1) = 2 powi (exponent (x * 2) - 1) * 2"
        by (rule power_int_add_1) simp
      have b: "(2::real) powi (exponent (x * 2) + 1) = 2 powi (exponent (x * 2)) * 2"
        by (rule power_int_add_1) simp
      show ?thesis unfolding e using ih a b by simp
    next
      case f2: False
      then have e: "exponent x = 0" using 1(3) False by (subst exponent.simps) simp
      show ?thesis unfolding e using False f2 by simp
    qed
  qed
qed

lemma roundHalfEven_error: "\<bar>of_int (roundHalfEven y) - y\<bar> \<le> 1 / 2"
  unfolding roundHalfEven_def Let_def by (auto; linarith)

lemma roundHalfEven_of_int [simp]: "roundHalfEven (of_int k) = k"
  unfolding roundHalfEven_def Let_def by simp

lemma roundHalfEven_nonneg: "0 \<le> y \<Longrightarrow> 0 \<le> roundHalfEven y"
  unfolding roundHalfEven_def Let_def by (auto; linarith)

lemma roundHalfEven_minus: "roundHalfEven (- y) = - roundHalfEven y"
proof (cases "y = of_int \<lfloor>y\<rfloor>")
  case True
  then obtain k where "y = of_int k" by metis
  then show ?thesis by (simp flip: of_int_minus)
next
  case False
  then have c: "\<lceil>y\<rceil> = \<lfloor>y\<rfloor> + 1" by (simp add: ceiling_altdef)
  have f: "\<lfloor>- y\<rfloor> = - \<lfloor>y\<rfloor> - 1" using c by (simp add: ceiling_def)
  have lt: "of_int \<lfloor>y\<rfloor> < y" using False by (metis less_eq_real_def of_int_floor_le)
  show ?thesis
    unfolding roundHalfEven_def Let_def f
    using lt by (auto simp: algebra_simps)
qed

lemma round64_minus: "round64 (- x) = - round64 x"
  by (simp add: round64_def Let_def roundHalfEven_minus)

lemma round64_nonneg: "0 \<le> x \<Longrightarrow> 0 \<le> round64 x"
  by (simp add: round64_def Let_def roundHalfEven_nonneg)

lemma round64_error:
  assumes "x \<noteq> 0"
  shows "\<bar>round64 x - x\<bar> \<le> 2 powi (max (exponent \<bar>x\<bar>) (- 1022) - 53)"
proof -
  define q :: real where "q = 2 powi (max (exponent \<bar>x\<bar>) (- 1022) - 52)"
  have qpos: "0 < q" by (simp add: q_def)
  have r: "round64 x = of_int (roundHalfEven (x / q)) * q"
    using assms by (simp add: round64_def q_def Let_def)
  have "round64 x - x = (of_int (roundHalfEven (x / q)) - x / q) * q"
    using qpos by (simp add: r field_simps)
  then have "\<bar>round64 x - x\<bar> = \<bar>of_int (roundHalfEven (x / q)) - x / q\<bar> * q"
    using qpos by (simp add: abs_mult)
  also have "\<dots> \<le> (1 / 2) * q"
    using roundHalfEven_error[of "x / q"] qpos by (intro mult_right_mono) auto
  also have "\<dots> = 2 powi (max (exponent \<bar>x\<bar>) (- 1022) - 53)"
    unfolding q_def
    using power_int_add_1[of "2::real" "max (exponent \<bar>x\<bar>) (- 1022) - 53"] by simp
  finally show ?thesis .
qed

lemma exponent_ge:
  assumes "2 powi k \<le> x"
  shows "k \<le> exponent x"
proof -
  have pos: "0 < x" using assms zero_less_power_int[of "2::real" k] by linarith
  have "2 powi k < (2::real) powi (exponent x + 1)"
    using exponent_bracket[OF pos] assms by linarith
  then have "k < exponent x + 1"
    by (metis linorder_not_less power_int_increasing one_le_numeral)
  then show ?thesis by simp
qed

lemma exponent_less:
  assumes "0 < x" "x < 2 powi k"
  shows "exponent x < k"
proof -
  have "2 powi (exponent x) < (2::real) powi k"
    using exponent_bracket[OF assms(1)] assms(2) by linarith
  then show ?thesis
    by (metis linorder_not_less power_int_increasing one_le_numeral)
qed

lemma round64_relative:
  assumes "2 powi (- 1022) \<le> \<bar>x\<bar>"
  shows "\<bar>round64 x - x\<bar> \<le> \<bar>x\<bar> / 2 ^ 53"
proof -
  have nz: "x \<noteq> 0" using assms zero_less_power_int[of "2::real" "- 1022"] by auto
  have ge: "- 1022 \<le> exponent \<bar>x\<bar>" using assms by (rule exponent_ge)
  have "\<bar>round64 x - x\<bar> \<le> 2 powi (exponent \<bar>x\<bar> - 53)"
    using round64_error[OF nz] ge by (simp add: max_def)
  also have "\<dots> = 2 powi (exponent \<bar>x\<bar>) / 2 ^ 53"
    by (simp add: power_int_diff)
  also have "\<dots> \<le> \<bar>x\<bar> / 2 ^ 53"
    using exponent_bracket[of "\<bar>x\<bar>"] nz by (simp add: divide_right_mono)
  finally show ?thesis .
qed


lemma round64_grid_less:
  assumes "\<bar>n\<bar> < 2 ^ 53" "- 1074 \<le> c"
  shows "round64 (of_int n * 2 powi c) = of_int n * 2 powi c"
proof (cases "n = 0")
  case True
  then show ?thesis by (simp add: round64_def)
next
  case False
  define r :: real where "r = of_int n * 2 powi c"
  define e where "e = max (exponent \<bar>r\<bar>) (- 1022)"
  have rnz: "r \<noteq> 0" using False by (simp add: r_def)
  have "\<bar>r\<bar> = of_int \<bar>n\<bar> * 2 powi c" by (simp add: r_def abs_mult)
  also have "\<dots> < 2 ^ 53 * 2 powi c"
    using assms(1) by (intro mult_strict_right_mono) (auto simp flip: of_int_less_iff)
  also have "\<dots> = 2 powi (c + 53)" by (simp add: power_int_add)
  finally have "\<bar>r\<bar> < 2 powi (c + 53)" .
  then have "exponent \<bar>r\<bar> < c + 53" using rnz by (intro exponent_less) auto
  then have le: "e \<le> c + 52" using assms(2) by (simp add: e_def)
  define k where "k = nat (c + 52 - e)"
  have c: "c = (e - 52) + int k" using le by (simp add: k_def)
  have "r / 2 powi (e - 52) = of_int n * 2 ^ k"
    by (subst r_def, subst c, subst power_int_add) simp_all
  also have "\<dots> = of_int (n * 2 ^ k)" by simp
  finally have q: "r / 2 powi (e - 52) = of_int (n * 2 ^ k)" .
  have "round64 r = of_int (roundHalfEven (r / 2 powi (e - 52))) * 2 powi (e - 52)"
    using rnz by (simp add: round64_def Let_def e_def)
  also have "\<dots> = of_int (n * 2 ^ k) * 2 powi (e - 52)"
    unfolding q by (simp only: roundHalfEven_of_int)
  also have "\<dots> = r"
    using q by (simp add: field_simps)
  finally show ?thesis by (simp add: r_def)
qed

lemma round64_grid:
  assumes "\<bar>n\<bar> \<le> 2 ^ 53" "- 1074 \<le> c"
  shows "round64 (of_int n * 2 powi c) = of_int n * 2 powi c"
proof (cases "\<bar>n\<bar> < 2 ^ 53")
  case True
  then show ?thesis using assms(2) by (rule round64_grid_less)
next
  case False
  then have "\<bar>n\<bar> = 2 ^ 53" using assms(1) by simp
  then consider "n = 2 ^ 53" | "n = - (2 ^ 53)" by (auto simp: abs_if split: if_splits)
  then show ?thesis
  proof cases
    case 1
    have "of_int n * 2 powi c = of_int (2 ^ 52) * (2::real) powi (c + 1)"
      unfolding 1 by (simp add: power_int_add)
    moreover have "round64 (of_int (2 ^ 52) * 2 powi (c + 1)) = of_int (2 ^ 52) * 2 powi (c + 1)"
      using assms(2) by (intro round64_grid_less) auto
    ultimately show ?thesis by simp
  next
    case 2
    have "of_int n * 2 powi c = of_int (- (2 ^ 52)) * (2::real) powi (c + 1)"
      unfolding 2 by (simp add: power_int_add)
    moreover have "round64 (of_int (- (2 ^ 52)) * 2 powi (c + 1)) = of_int (- (2 ^ 52)) * 2 powi (c + 1)"
      using assms(2) by (intro round64_grid_less) auto
    ultimately show ?thesis by simp
  qed
qed

lemma round64_of_int:
  assumes "\<bar>k\<bar> \<le> 2 ^ 53"
  shows "round64 (of_int k) = of_int k"
  using round64_grid[OF assms, of 0] by simp

lemma roundHalfEven_bound:
  assumes "\<bar>y\<bar> \<le> of_int b"
  shows "\<bar>roundHalfEven y\<bar> \<le> b"
proof -
  have "roundHalfEven y \<le> b"
    using assms unfolding roundHalfEven_def Let_def by (auto; linarith)
  moreover have "- b \<le> roundHalfEven y"
    using assms unfolding roundHalfEven_def Let_def by (auto; linarith)
  ultimately show ?thesis by simp
qed

lemma round64_idem: "round64 (round64 x) = round64 x"
proof (cases "x = 0")
  case True
  then show ?thesis by (simp add: round64_def)
next
  case False
  define e where "e = max (exponent \<bar>x\<bar>) (- 1022)"
  define q :: real where "q = 2 powi (e - 52)"
  have qpos: "0 < q" by (simp add: q_def)
  have r: "round64 x = of_int (roundHalfEven (x / q)) * q"
    using False by (simp add: round64_def q_def e_def Let_def)
  have "\<bar>x\<bar> < 2 powi (exponent \<bar>x\<bar> + 1)" using exponent_bracket[of "\<bar>x\<bar>"] False by simp
  also have "\<dots> \<le> 2 powi (e + 1)" by (intro power_int_increasing) (auto simp: e_def)
  also have "\<dots> = 2 ^ 53 * q" unfolding q_def by (simp add: power_int_diff power_int_add)
  finally have "\<bar>x / q\<bar> \<le> of_int (2 ^ 53)"
    using qpos by (simp add: field_simps abs_mult)
  then have "\<bar>roundHalfEven (x / q)\<bar> \<le> 2 ^ 53" by (rule roundHalfEven_bound)
  moreover have "- 1074 \<le> e - 52" by (simp add: e_def)
  ultimately show ?thesis unfolding r q_def by (rule round64_grid)
qed


lemma isDouble_zero [simp]: "isDouble 0"
  by (simp add: isDouble_def)

lemma isDouble_minus: "isDouble (- x) = isDouble x"
  by (auto simp: isDouble_def round64_minus)

lemma isDouble_of_int: "\<bar>k\<bar> \<le> 2 ^ 53 \<Longrightarrow> isDouble (of_int k)"
proof -
  assume a: "\<bar>k\<bar> \<le> 2 ^ 53"
  have "\<bar>k\<bar> < 2 ^ 1024" using a by (rule order_le_less_trans) simp
  then have "\<bar>real_of_int k\<bar> < 2 ^ 1024"
    by (metis of_int_abs of_int_less_iff of_int_numeral of_int_power)
  then show ?thesis using round64_of_int[OF a] by (simp add: isDouble_def)
qed

lemma minus64_zero_left: "minus64 0 s = - s"
  by (simp add: minus64_def binary64_def round64_minus isDouble_def)

lemma jsSubtract_zero_left: "jsSubtract 0 s = Inr (0 - s)"
  by (auto simp: jsSubtract_def finite64_def minus64_zero_left isDouble_def)

section \<open>The layout pass computes the rows\<close>

text \<open>The definitions unfolded to run the passes on an instance.\<close>

lemma plainLow_value: "plainLow = 4722366482869645 / 4722366482869645213696"
  by (simp add: plainLow_def round64_def roundHalfEven_def exponent.simps Let_def)

lemmas image_ops =
  hide_def load_def getElement_def writeStyles_def updateStyles_def removeAllSubElements_def
  removeSubElement_def getSub_def setSub_def appendChild_def removeChild_def
  addAllSubElements_def addImageAsSubElement_def loadTimeout_def

lemmas number_eval =
  jsAdd_def jsSubtract_def jsMultiply_def jsDivide_def finite64_def plus64_def
  minus64_def times64_def divide64_def binary64_def isDouble_def round64_def roundHalfEven_def
  exponent.simps parseInt_def plainLow_value

lemmas layout_eval =
  computeLayout_def newPig_def parseImageData_def upt_rec
  defaultSettings_def defaultGetMinAspectRatio_def beginLayout_def recomputeMinAspectRatio_def
  getTransitionString_def initialLayoutState_def closeRow_def newImage_def Let_def number_eval

lemmas visibility_eval =
  scrollHandler_def minTranslateYPlusHeight_def maxTranslateY_def getOffsetTop_def
  bufferTop_def bufferBottom_def visibilityCall_def doLayout_def applyCall_def emptyPage_def


lemma beginLayout_frame:
  "images (beginLayout p) = images p"
  "settings (beginLayout p) = settings p"
  "clientWidth (beginLayout p) = clientWidth p"
  "minAspectRatio (beginLayout p) = Some (layoutMinAspectRatio p)"
  by (simp_all add: beginLayout_def recomputeMinAspectRatio_def Let_def layoutMinAspectRatio_def)













section \<open>Claims about the layout pass\<close>





text \<open>
  C10. With no images the layout pass returns, leaves the vertical cursor at 0 and sets the
  total height to \<open>0 - spaceBetweenImages\<close>, negative for every positive spacing; the
  visibility pass that follows assigns that value to the container's height.
\<close>

theorem computeLayout_empty:
  assumes "images p = []"
  shows "layoutLoop W s m tr 0 0 initialLayoutState [] = Inr initialLayoutState
         \<and> cursorY initialLayoutState = 0
         \<and> (\<exists>p1 p2 h. computeLayout p = Inr p1 \<and> doLayout p1 = Inr p2
               \<and> h = 0 - spaceBetweenImages (settings p)
               \<and> totalHeight p1 = Some h \<and> styleHeight p2 = Some h
               \<and> (0 < spaceBetweenImages (settings p) \<longrightarrow> h < 0))"
proof -
  let ?s = "spaceBetweenImages (settings p)"
  let ?p1 = "(beginLayout p)\<lparr>images := [], totalHeight := Some (0 - ?s)\<rparr>"
  have cl: "computeLayout p = Inr ?p1"
    using assms
    by (simp add: computeLayout_def Let_def beginLayout_frame initialLayoutState_def
        jsSubtract_zero_left)
  have dl: "doLayout ?p1 = Inr (?p1\<lparr>styleHeight := Some (0 - ?s), page := page ?p1\<rparr>)"
    by (simp add: doLayout_def Let_def)
  have "\<exists>p1 p2 h. computeLayout p = Inr p1 \<and> doLayout p1 = Inr p2
               \<and> h = 0 - ?s \<and> totalHeight p1 = Some h \<and> styleHeight p2 = Some h
               \<and> (0 < ?s \<longrightarrow> h < 0)"
    using cl dl
    by (intro exI[of _ ?p1] exI[of _ "?p1\<lparr>styleHeight := Some (0 - ?s), page := page ?p1\<rparr>"]
          exI[of _ "0 - ?s"]) simp
  then show ?thesis by (simp add: initialLayoutState_def)
qed

text \<open>The theorem at the default settings: the total height and the container height
  are \<open>-8\<close>.\<close>

theorem computeLayout_empty_witness:
  "images (newPig [] defaultSettings 1900 1000 800) = []
   \<and> 0 < spaceBetweenImages (settings (newPig [] defaultSettings 1900 1000 800))
   \<and> (\<exists>p1 p2. computeLayout (newPig [] defaultSettings 1900 1000 800) = Inr p1
         \<and> doLayout p1 = Inr p2 \<and> totalHeight p1 = Some (- 8) \<and> styleHeight p2 = Some (- 8))"
proof -
  have e: "images (newPig [] defaultSettings 1900 1000 800) = []"
    by (simp add: newPig_def parseImageData_def)
  have s: "spaceBetweenImages (settings (newPig [] defaultSettings 1900 1000 800)) = 8"
    by (simp add: newPig_def defaultSettings_def)
  show ?thesis
    using computeLayout_empty[OF e, of 1000 8 5 NoTransition] e unfolding s by auto
qed

section \<open>The visibility pass\<close>




lemma scrolledPig_eval:
  "minTranslateYPlusHeight scrolledPig = 300" "maxTranslateY scrolledPig = 1700"
  "primaryImageBufferHeight (settings scrolledPig) = 1000"
  "secondaryImageBufferHeight (settings scrolledPig) = 300"
  "scrollerHeight scrolledPig = 800"
  "animationFrames scrolledPig = [ScrollFrame]" "inRAF scrolledPig"
  "\<exists>p'. doLayout scrolledPig = Inr p' \<and> map existsOnPage (images p') = [False, True]
        \<and> containerChildren (page p') = [1] \<and> loadTimeouts (page p') = [1]"
  by (simp_all add: scrolledPig_def layout_eval visibility_eval image_ops)







section \<open>Claims about the scroll handler\<close>

text \<open>
  C6, as amended. On every scroll notification the previous offset is the last known offset
  when that is not zero, and the newly read offset itself when it is zero; the direction is
  down exactly when the new offset is strictly greater than this previous offset, and up
  otherwise. So it is down exactly when the last known offset is not zero and the new offset
  is greater; a new offset equal to the last known one gives up; and when the last known
  offset is 0, as at the first notification after construction, the direction is up
  whatever the new offset.
\<close>

theorem scrollHandler_direction:
  "latestYOffset (scrollHandler y p) = y
   \<and> previousYOffset (scrollHandler y p)
       = Some (if latestYOffset p \<noteq> 0 then latestYOffset p else y)
   \<and> scrollDirection (scrollHandler y p)
       = (if y > (if latestYOffset p \<noteq> 0 then latestYOffset p else y) then Down else Up)
   \<and> scrollDirection (scrollHandler y p)
       = (if latestYOffset p \<noteq> 0 \<and> y > latestYOffset p then Down else Up)
   \<and> scrollDirection (scrollHandler (latestYOffset p) p) = Up"
  by (simp add: scrollHandler_def Let_def)

text \<open>
  C6 as stated fails at the first notification after construction: the last known offset is
  0, the new offset 100 is strictly greater, and the direction is up (the previous offset is
  taken to be 100).
\<close>

theorem scrollHandler_direction_counterexample:
  "latestYOffset (newPig [] defaultSettings 1900 1000 800) = 0
   \<and> scrollDirection (scrollHandler 100 (newPig [] defaultSettings 1900 1000 800)) = Up
   \<and> previousYOffset (scrollHandler 100 (newPig [] defaultSettings 1900 1000 800)) = Some 100"
  by (simp add: newPig_def scrollHandler_def Let_def)

lemma doLayout_schedule:
  "doLayout p = Inr p' \<Longrightarrow> inRAF p' = inRAF p \<and> animationFrames p' = animationFrames p"
  by (auto simp: doLayout_def Let_def split: option.splits sum.splits prod.splits)

lemma scroll_pass_queued_new:
  "animationFrames (newPig d S w cw ih) = (if inRAF (newPig d S w cw ih) then [ScrollFrame] else [])"
  by (simp add: newPig_def)

lemma scroll_pass_queued_handler:
  "animationFrames p = (if inRAF p then [ScrollFrame] else []) \<Longrightarrow>
     animationFrames (scrollHandler y p) = (if inRAF (scrollHandler y p) then [ScrollFrame] else [])"
  by (simp add: scrollHandler_def Let_def)

lemma scroll_pass_queued_frame:
  assumes "animationFrames p = (if inRAF p then [ScrollFrame] else [])"
    and "runFrame w p = Inr p'"
  shows "animationFrames p' = (if inRAF p' then [ScrollFrame] else [])"
proof (cases "inRAF p")
  case True
  then obtain p1 where "doLayout (p\<lparr>animationFrames := []\<rparr>) = Inr p1" "p' = p1\<lparr>inRAF := False\<rparr>"
    using assms by (auto simp: runFrame_def scrollFrame_def split: sum.splits)
  then show ?thesis using doLayout_schedule[of "p\<lparr>animationFrames := []\<rparr>" p1] by simp
next
  case False
  then show ?thesis using assms by (auto simp: runFrame_def)
qed

lemma scrollHandler_inRAF:
  "inRAF p \<Longrightarrow> inRAF (scrollHandler y p) \<and> animationFrames (scrollHandler y p) = animationFrames p"
  by (simp add: scrollHandler_def Let_def)

lemma scrollBurst_inRAF:
  "inRAF p \<Longrightarrow> inRAF (scrollBurst ys p) \<and> animationFrames (scrollBurst ys p) = animationFrames p"
  by (induction ys arbitrary: p) (auto simp: scrollHandler_inRAF)

lemma scrollHandler_schedules:
  "animationFrames p = (if inRAF p then [ScrollFrame] else []) \<Longrightarrow>
     inRAF (scrollHandler y p) \<and> animationFrames (scrollHandler y p) = [ScrollFrame]"
  by (simp add: scrollHandler_def Let_def)

lemma scrollBurst_snoc: "scrollBurst (ys @ [y]) p = scrollHandler y (scrollBurst ys p)"
  by (induction ys arbitrary: p) auto

text \<open>
  C9. In a state where a scroll pass is queued exactly when \<open>inRAF\<close> is set, after any
  \<open>N \<ge> 1\<close> scroll notifications delivered before the next frame exactly one scroll pass
  is queued; the frame runs it once: one visibility pass, on the state the last of the
  notifications left (its offset is the last offset read), after which \<open>inRAF\<close> is cleared.
\<close>

theorem scroll_burst_one_pass:
  assumes "animationFrames p = (if inRAF p then [ScrollFrame] else [])" and "ys \<noteq> []"
  shows "inRAF (scrollBurst ys p)
         \<and> animationFrames (scrollBurst ys p) = [ScrollFrame]
         \<and> runFrame w (scrollBurst ys p) = scrollFrame ((scrollBurst ys p)\<lparr>animationFrames := []\<rparr>)
         \<and> scrollFrame ((scrollBurst ys p)\<lparr>animationFrames := []\<rparr>)
             = (case doLayout ((scrollBurst ys p)\<lparr>animationFrames := []\<rparr>) of
                  Inl e \<Rightarrow> Inl e | Inr p' \<Rightarrow> Inr (p'\<lparr>inRAF := False\<rparr>))
         \<and> scrollBurst ys p = scrollHandler (last ys) (scrollBurst (butlast ys) p)
         \<and> latestYOffset (scrollBurst ys p) = last ys"
proof -
  obtain y ys' where ys: "ys = y # ys'" using assms(2) by (cases ys) auto
  have first: "inRAF (scrollHandler y p) \<and> animationFrames (scrollHandler y p) = [ScrollFrame]"
    using assms(1) by (rule scrollHandler_schedules)
  then have q: "inRAF (scrollBurst ys p)" "animationFrames (scrollBurst ys p) = [ScrollFrame]"
    using scrollBurst_inRAF[of "scrollHandler y p" ys'] by (simp_all add: ys)
  have snoc: "scrollBurst ys p = scrollHandler (last ys) (scrollBurst (butlast ys) p)"
    using scrollBurst_snoc[of "butlast ys" "last ys" p] assms(2) by simp
  have latest: "latestYOffset (scrollBurst ys p) = last ys"
    by (subst snoc) (simp add: scrollHandler_def Let_def)
  have run: "runFrame w (scrollBurst ys p) = scrollFrame ((scrollBurst ys p)\<lparr>animationFrames := []\<rparr>)"
    by (simp add: runFrame_def q split: sum.splits)
  show ?thesis
    using q snoc latest run by (simp add: scrollFrame_def)
qed

text \<open>The theorem at \<open>scrolledPig\<close>, where a pass is already queued, and three more
  notifications.\<close>

theorem scroll_burst_one_pass_witness:
  "animationFrames scrolledPig = (if inRAF scrolledPig then [ScrollFrame] else [])
   \<and> animationFrames (scrollBurst [700, 650, 640] scrolledPig) = [ScrollFrame]
   \<and> latestYOffset (scrollBurst [700, 650, 640] scrolledPig) = 640
   \<and> scrollDirection (scrollBurst [700, 650, 640] scrolledPig) = Up
   \<and> runFrame 1900 (scrollBurst [700, 650, 640] scrolledPig)
       = scrollFrame ((scrollBurst [700, 650, 640] scrolledPig)\<lparr>animationFrames := []\<rparr>)"
proof -
  have inv: "animationFrames scrolledPig = (if inRAF scrolledPig then [ScrollFrame] else [])"
    by (simp add: scrolledPig_eval)
  have dir: "scrollDirection (scrollBurst [700, 650, 640] scrolledPig) = Up"
    by (simp add: scrollHandler_def Let_def)
  show ?thesis
    using scroll_burst_one_pass[OF inv, of "[700, 650, 640]" 1900] inv dir by simp
qed

section \<open>Claims about the image lifecycle and the listeners\<close>





lemma loadTimeout_wellFormed:
  assumes "wellFormed img pg"
  shows "\<exists>img' pg'. loadTimeout S w img pg = Inr (img', pg') \<and> wellFormed img' pg'"
proof -
  obtain st where st: "style img = Some st" using assms by (auto simp: wellFormed_def)
  show ?thesis
  proof (cases "existsOnPage img")
    case False
    then show ?thesis using assms by (simp add: loadTimeout_def)
  next
    case True
    show ?thesis
      using assms st True
      by (cases "element img"; cases "thumbnail img"; cases "fullImage img")
         (auto simp: wellFormed_def subElements_def figureChildren_def image_ops Let_def
            less_Suc_eq)
  qed
qed


lemma wellFormed_new:
  "index img \<notin> set (containerChildren pg) \<Longrightarrow>
     wellFormed ((newImage (index img) d)\<lparr>style := Some st\<rparr>) pg"
  by (simp add: wellFormed_def newImage_def subElements_def figureChildren_def)




text \<open>
  C8 fails on the code: \<open>disable\<close> passes \<open>removeEventListener\<close> a function object made in
  that very call, so it removes no \<open>resize\<close> listener. For a new instance, \<open>enable\<close>
  registers the scroll handler 0 and the resize listener 2 with the callback 1; after
  \<open>disable\<close> the scroll listener is gone and the resize listener 2 and the callback 1 are
  still there; after the next \<open>enable\<close> the resize manager holds two callbacks.
\<close>

theorem disable_leaves_resize_listener:
  "resizeListeners (disable p) = removeEventListener (functionCount p) (resizeListeners p)
   \<and> (case enable 0 (newPig [] defaultSettings 1900 1000 800) of
        Inl e \<Rightarrow> False
      | Inr p1 \<Rightarrow>
          scrollListeners p1 = [0] \<and> resizeListeners p1 = [2]
          \<and> callbacks (optimizedResize p1) = [1]
          \<and> scrollListeners (disable p1) = [] \<and> resizeListeners (disable p1) = [2]
          \<and> callbacks (optimizedResize (disable p1)) = [1]
          \<and> (case enable 0 (disable p1) of
                Inl e \<Rightarrow> False
              | Inr p2 \<Rightarrow>
                  scrollListeners p2 = [4] \<and> resizeListeners p2 = [2]
                  \<and> callbacks (optimizedResize p2) = [1, 5]))"
  by (simp add: disable_def optimizedResizeDisable_def enable_def optimizedResizeAdd_def
      addEventListener_def removeEventListener_def layout_eval visibility_eval
      split: option.splits)

end
